theory Spec2Isabelle
  imports Complex_Main "HOL-Library.AList" "HOL-Library.Log_Nat"
begin

section \<open>Latency analytics: the data model\<close>

text \<open>
  The program is one Python module (\<^verbatim>\<open>api/index.py\<close>): a literal list of telemetry
  samples, a grouping loop that runs once at import time, and one request handler.

  Numbers. The samples hold decimal literals, which Python reads as binary64 floats, and
  the handler computes with NumPy. Here a measured value is the real number its
  literal denotes (\<open>103.67\<close> is \<open>10367 / 100\<close>) and arithmetic on it is exact: the
  rounding error of binary64 arithmetic on the measured values is not part of this
  model. The statements below that speak of rounding say that the result is a nearest
  number with \<open>d\<close> decimal places, which does not depend on how a tie is broken.
  The threshold of a request is a Python integer of any size; its conversion to binary64,
  which rounds a large integer and fails on a larger one, is part of the model.
\<close>

record sample =
  region :: string
  service :: string
  latency_ms :: real
  uptime_pct :: real
  timestamp :: int

definition TELEMETRY_DATA :: "sample list" where
  "TELEMETRY_DATA = [
    \<lparr>region = ''apac'', service = ''catalog'', latency_ms = 103.67, uptime_pct = 99.269, timestamp = 20250301\<rparr>,
    \<lparr>region = ''apac'', service = ''support'', latency_ms = 206.81, uptime_pct = 98.88, timestamp = 20250302\<rparr>,
    \<lparr>region = ''apac'', service = ''analytics'', latency_ms = 150.4, uptime_pct = 97.798, timestamp = 20250303\<rparr>,
    \<lparr>region = ''apac'', service = ''checkout'', latency_ms = 139.44, uptime_pct = 97.891, timestamp = 20250304\<rparr>,
    \<lparr>region = ''apac'', service = ''support'', latency_ms = 159.57, uptime_pct = 97.519, timestamp = 20250305\<rparr>,
    \<lparr>region = ''apac'', service = ''checkout'', latency_ms = 231.17, uptime_pct = 97.365, timestamp = 20250306\<rparr>,
    \<lparr>region = ''apac'', service = ''checkout'', latency_ms = 155.99, uptime_pct = 97.822, timestamp = 20250307\<rparr>,
    \<lparr>region = ''apac'', service = ''recommendations'', latency_ms = 177.31, uptime_pct = 97.575, timestamp = 20250308\<rparr>,
    \<lparr>region = ''apac'', service = ''payments'', latency_ms = 236.58, uptime_pct = 97.27, timestamp = 20250309\<rparr>,
    \<lparr>region = ''apac'', service = ''support'', latency_ms = 152.06, uptime_pct = 98.879, timestamp = 20250310\<rparr>,
    \<lparr>region = ''apac'', service = ''analytics'', latency_ms = 143.73, uptime_pct = 98.738, timestamp = 20250311\<rparr>,
    \<lparr>region = ''apac'', service = ''checkout'', latency_ms = 100.63, uptime_pct = 98.563, timestamp = 20250312\<rparr>,
    \<lparr>region = ''emea'', service = ''analytics'', latency_ms = 186.77, uptime_pct = 97.498, timestamp = 20250301\<rparr>,
    \<lparr>region = ''emea'', service = ''support'', latency_ms = 223.88, uptime_pct = 99.071, timestamp = 20250302\<rparr>,
    \<lparr>region = ''emea'', service = ''payments'', latency_ms = 225.29, uptime_pct = 98.303, timestamp = 20250303\<rparr>,
    \<lparr>region = ''emea'', service = ''payments'', latency_ms = 126.49, uptime_pct = 97.432, timestamp = 20250304\<rparr>,
    \<lparr>region = ''emea'', service = ''catalog'', latency_ms = 183.37, uptime_pct = 99.029, timestamp = 20250305\<rparr>,
    \<lparr>region = ''emea'', service = ''support'', latency_ms = 169.76, uptime_pct = 98.48, timestamp = 20250306\<rparr>,
    \<lparr>region = ''emea'', service = ''catalog'', latency_ms = 135.66, uptime_pct = 97.909, timestamp = 20250307\<rparr>,
    \<lparr>region = ''emea'', service = ''support'', latency_ms = 125.56, uptime_pct = 97.164, timestamp = 20250308\<rparr>,
    \<lparr>region = ''emea'', service = ''recommendations'', latency_ms = 219.31, uptime_pct = 97.868, timestamp = 20250309\<rparr>,
    \<lparr>region = ''emea'', service = ''payments'', latency_ms = 132, uptime_pct = 99.2, timestamp = 20250310\<rparr>,
    \<lparr>region = ''emea'', service = ''checkout'', latency_ms = 122.16, uptime_pct = 98.539, timestamp = 20250311\<rparr>,
    \<lparr>region = ''emea'', service = ''checkout'', latency_ms = 107.86, uptime_pct = 98.703, timestamp = 20250312\<rparr>,
    \<lparr>region = ''amer'', service = ''recommendations'', latency_ms = 162.82, uptime_pct = 98.083, timestamp = 20250301\<rparr>,
    \<lparr>region = ''amer'', service = ''recommendations'', latency_ms = 171.9, uptime_pct = 97.271, timestamp = 20250302\<rparr>,
    \<lparr>region = ''amer'', service = ''analytics'', latency_ms = 154.74, uptime_pct = 98.954, timestamp = 20250303\<rparr>,
    \<lparr>region = ''amer'', service = ''recommendations'', latency_ms = 130.84, uptime_pct = 98.581, timestamp = 20250304\<rparr>,
    \<lparr>region = ''amer'', service = ''payments'', latency_ms = 222.48, uptime_pct = 98.746, timestamp = 20250305\<rparr>,
    \<lparr>region = ''amer'', service = ''support'', latency_ms = 123.92, uptime_pct = 99.387, timestamp = 20250306\<rparr>,
    \<lparr>region = ''amer'', service = ''payments'', latency_ms = 183.61, uptime_pct = 99.035, timestamp = 20250307\<rparr>,
    \<lparr>region = ''amer'', service = ''analytics'', latency_ms = 157.98, uptime_pct = 99.103, timestamp = 20250308\<rparr>,
    \<lparr>region = ''amer'', service = ''recommendations'', latency_ms = 212.52, uptime_pct = 98.047, timestamp = 20250309\<rparr>,
    \<lparr>region = ''amer'', service = ''payments'', latency_ms = 215.67, uptime_pct = 99.02, timestamp = 20250310\<rparr>,
    \<lparr>region = ''amer'', service = ''recommendations'', latency_ms = 141.13, uptime_pct = 99.242, timestamp = 20250311\<rparr>,
    \<lparr>region = ''amer'', service = ''payments'', latency_ms = 134.05, uptime_pct = 98.826, timestamp = 20250312\<rparr>
  ]"

text \<open>
  A bucket is the dictionary \<^verbatim>\<open>{'latencies': [...], 'uptimes': [...]}\<close>; the store is a
  \<^verbatim>\<open>defaultdict\<close> from region names to buckets. A Python dictionary keeps its keys in
  insertion order, so the store is an association list with distinct keys.
\<close>

record bucket =
  latencies :: "real list"
  uptimes :: "real list"

type_synonym store = "(string \<times> bucket) list"

text \<open>The factory \<^verbatim>\<open>lambda: {'latencies': [], 'uptimes': []}\<close>.\<close>

definition default_factory :: bucket where
  "default_factory = \<lparr>latencies = [], uptimes = []\<rparr>"

text \<open>\<^verbatim>\<open>key in d\<close>: a membership test reads the dictionary and never changes it.\<close>

definition dict_contains :: "('k \<times> 'v) list \<Rightarrow> 'k \<Rightarrow> bool" where
  "dict_contains d k \<longleftrightarrow> map_of d k \<noteq> None"

text \<open>
  \<^verbatim>\<open>d[key]\<close> on a \<^verbatim>\<open>defaultdict\<close>: a missing key is inserted with a fresh value of the
  factory, which is then returned. The access returns the store as well, since it may
  have grown.
\<close>

definition defaultdict_getitem :: "store \<Rightarrow> string \<Rightarrow> store \<times> bucket" where
  "defaultdict_getitem d k =
     (case map_of d k of
        Some b \<Rightarrow> (d, b)
      | None \<Rightarrow> (d @ [(k, default_factory)], default_factory))"

text \<open>
  \<^verbatim>\<open>d[key]['latencies'].append(v)\<close>: the bucket returned by the access is the object the
  store holds, so the append is seen through the store.
\<close>

definition append_latency :: "store \<Rightarrow> string \<Rightarrow> real \<Rightarrow> store" where
  "append_latency d k v =
     (let (d', _) = defaultdict_getitem d k
      in AList.map_entry k (\<lambda>b. b\<lparr>latencies := latencies b @ [v]\<rparr>) d')"

definition append_uptime :: "store \<Rightarrow> string \<Rightarrow> real \<Rightarrow> store" where
  "append_uptime d k v =
     (let (d', _) = defaultdict_getitem d k
      in AList.map_entry k (\<lambda>b. b\<lparr>uptimes := uptimes b @ [v]\<rparr>) d')"

text \<open>The body of the grouping loop, and the loop over a list of samples.\<close>

definition process_item :: "store \<Rightarrow> sample \<Rightarrow> store" where
  "process_item d item =
     (let rg = region item;
          d1 = append_latency d rg (latency_ms item)
      in append_uptime d1 rg (uptime_pct item))"

definition build_store :: "sample list \<Rightarrow> store" where
  "build_store items = foldl process_item [] items"

definition PROCESSED_DATA :: store where
  "PROCESSED_DATA = build_store TELEMETRY_DATA"

section \<open>The request handler\<close>

record AnalyticsRequest =
  regions :: "string list"
  threshold_ms :: int

text \<open>One entry of the response: the dictionary with the four statistics.\<close>

record region_stats =
  avg_latency :: real
  p95_latency :: real
  avg_uptime :: real
  breaches :: int

type_synonym results = "(string \<times> region_stats) list"

text \<open>
  What the numeric library does on an input it has no number for: on an empty sequence
  \<^verbatim>\<open>np.mean\<close> gives \<^verbatim>\<open>nan\<close> and \<^verbatim>\<open>np.percentile\<close> gives \<^verbatim>\<open>nan\<close> or raises, and a
  percentile outside \<open>[0, 100]\<close> raises \<^verbatim>\<open>ValueError\<close>. A Python integer that has no
  finite binary64 value raises \<^verbatim>\<open>OverflowError\<close> when it is converted.
\<close>

datatype error = EmptySequence | PercentileOutOfRange | OverflowError

text \<open>\<^verbatim>\<open>np.mean(xs)\<close>: the sum of the elements divided by their number.\<close>

definition np_mean :: "real list \<Rightarrow> error + real" where
  "np_mean xs =
     (if xs = [] then Inl EmptySequence
      else Inr (sum_list xs / of_nat (length xs)))"

text \<open>
  \<^verbatim>\<open>np.percentile(xs, q)\<close> with NumPy's default method \<^verbatim>\<open>'linear'\<close>. NumPy places the
  percentile at the virtual index \<open>(n - 1) * (q / 100)\<close> of the sorted data, takes the
  elements at the index below and at the next one (both the last element when the
  virtual index reaches it), and interpolates between them with the fractional part.
  The interpolation \<open>lerp\<close> works from the nearer end.
\<close>

definition lerp :: "real \<Rightarrow> real \<Rightarrow> real \<Rightarrow> real" where
  "lerp a b t =
     (let diff_b_a = b - a
      in if 1 / 2 \<le> t then b - diff_b_a * (1 - t) else a + diff_b_a * t)"

definition np_percentile :: "real list \<Rightarrow> real \<Rightarrow> error + real" where
  "np_percentile xs q =
     (if q < 0 \<or> 100 < q then Inl PercentileOutOfRange
      else if xs = [] then Inl EmptySequence
      else
        let arr = sort xs;
            n = length xs;
            virtual_index = (of_nat n - 1) * (q / 100);
            above = (of_nat n - 1 \<le> virtual_index);
            previous_index = (if above then n - 1 else nat \<lfloor>virtual_index\<rfloor>);
            next_index = (if above then n - 1 else nat \<lfloor>virtual_index\<rfloor> + 1);
            gamma = virtual_index - of_int \<lfloor>virtual_index\<rfloor>
        in Inr (lerp (arr ! previous_index) (arr ! next_index) gamma))"

text \<open>Rounding to the nearest integer, a tie going to the even neighbour.\<close>

definition round_half_even :: "real \<Rightarrow> int" where
  "round_half_even y =
     (let f = \<lfloor>y\<rfloor>; d = y - of_int f
      in if d < 1 / 2 then f
         else if 1 / 2 < d then f + 1
         else if even f then f else f + 1)"

text \<open>\<^verbatim>\<open>round(x, ndigits)\<close>: the nearest number with \<open>ndigits\<close> decimal places, ties to even.\<close>

definition py_round :: "real \<Rightarrow> nat \<Rightarrow> real" where
  "py_round x ndigits = of_int (round_half_even (x * 10 ^ ndigits)) / 10 ^ ndigits"

text \<open>
  The conversion of a Python integer to binary64, which NumPy (version 2) makes first
  when it compares a binary64 array with the integer; it is the conversion of
  \<^verbatim>\<open>float(i)\<close>. An integer below \<open>2 ^ 53\<close> in magnitude is its own value. A larger one
  is rounded to 53 significant bits, a tie going to the even neighbour: with \<open>a\<close> its
  magnitude and \<open>e\<close> the number of bits of \<open>a\<close> beyond 53, it becomes \<open>m * 2 ^ e\<close> (with
  its sign) for the integer \<open>m\<close> nearest to \<open>a / 2 ^ e\<close>. When that is \<open>2 ^ 1024\<close> or
  more there is no finite value and the conversion raises \<^verbatim>\<open>OverflowError\<close>.
\<close>

definition binary64_of_int :: "int \<Rightarrow> error + real" where
  "binary64_of_int i =
     (let a = \<bar>i\<bar>
      in if a < 2 ^ 53 then Inr (of_int i)
         else
           let e = nat (bitlen a - 53);
               m = round_half_even (of_int a / 2 ^ e)
           in if 2 ^ 1024 \<le> m * 2 ^ e then Inl OverflowError
              else Inr (of_int (sgn i * m * 2 ^ e)))"

text \<open>
  \<^verbatim>\<open>np.sum(np.array(xs) > threshold)\<close>: the threshold is converted, the comparison gives
  an array of booleans, whose sum counts \<^verbatim>\<open>True\<close> as one; \<^verbatim>\<open>int(...)\<close> makes it a Python
  integer.
\<close>

definition count_breaches :: "real list \<Rightarrow> int \<Rightarrow> error + int" where
  "count_breaches xs threshold =
     (case binary64_of_int threshold of
        Inl e \<Rightarrow> Inl e
      | Inr v \<Rightarrow> Inr (sum_list (map (\<lambda>x. if v < x then 1 else 0) xs)))"

text \<open>The entry written for a region that has no data.\<close>

definition zero_stats :: region_stats where
  "zero_stats = \<lparr>avg_latency = 0, p95_latency = 0, avg_uptime = 0, breaches = 0\<rparr>"

text \<open>
  The loop \<^verbatim>\<open>for region in request.regions\<close> of \<^verbatim>\<open>analyze_latency\<close>. The store is
  threaded through, since the two accesses \<^verbatim>\<open>PROCESSED_DATA[region]\<close> are accesses to a
  \<^verbatim>\<open>defaultdict\<close>; \<^verbatim>\<open>results[region] = ...\<close> replaces the entry of a region seen before
  and appends a new one otherwise. The call gives the store it leaves behind together
  with its outcome: the response, or the error that ended it (an exception leaves the
  global store as it is at that moment, and no response).
\<close>

fun analyze_loop ::
  "store \<Rightarrow> int \<Rightarrow> string list \<Rightarrow> results \<Rightarrow> store \<times> (error + results)" where
  "analyze_loop d threshold [] results = (d, Inr results)"
| "analyze_loop d threshold (rg # rest) results =
     (if \<not> dict_contains d rg then
        analyze_loop d threshold rest (AList.update rg zero_stats results)
      else
        let (d1, b1) = defaultdict_getitem d rg;
            lats = latencies b1;
            (d2, b2) = defaultdict_getitem d1 rg;
            ups = uptimes b2
        in case np_mean lats of
             Inl e \<Rightarrow> (d2, Inl e)
           | Inr avg_lat \<Rightarrow>
               (case np_percentile lats 95 of
                  Inl e \<Rightarrow> (d2, Inl e)
                | Inr p95 \<Rightarrow>
                    (case np_mean ups of
                       Inl e \<Rightarrow> (d2, Inl e)
                     | Inr avg_up \<Rightarrow>
                         (case count_breaches lats threshold of
                            Inl e \<Rightarrow> (d2, Inl e)
                          | Inr n \<Rightarrow>
                              analyze_loop d2 threshold rest
                                (AList.update rg
                                   \<lparr>avg_latency = py_round avg_lat 2,
                                    p95_latency = py_round p95 2,
                                    avg_uptime = py_round avg_up 4,
                                    breaches = n\<rparr>
                                   results)))))"

definition analyze_latency :: "store \<Rightarrow> AnalyticsRequest \<Rightarrow> store \<times> (error + results)" where
  "analyze_latency d request = analyze_loop d (threshold_ms request) (regions request) []"

section \<open>What the specification says\<close>

text \<open>
  The specification's 95th percentile, in its own words: sort the data, take the rank
  position \<open>r = 0.95 * (n - 1)\<close>, its floor \<open>lo\<close>, its ceiling \<open>hi\<close> and
  \<open>frac = r - lo\<close>; the result is \<open>L_sorted[lo] + frac * (L_sorted[hi] - L_sorted[lo])\<close>.
\<close>

definition spec_p95 :: "real list \<Rightarrow> real" where
  "spec_p95 L =
     (let L_sorted = sort L;
          n = length L;
          r = 0.95 * (of_nat n - 1);
          lo = \<lfloor>r\<rfloor>;
          hi = \<lceil>r\<rceil>;
          frac = r - of_int lo
      in L_sorted ! nat lo + frac * (L_sorted ! nat hi - L_sorted ! nat lo))"

text \<open>The arithmetic mean of a non-empty sequence.\<close>

definition spec_mean :: "real list \<Rightarrow> real" where
  "spec_mean L = sum_list L / of_nat (length L)"

text \<open>
  \<open>y\<close> is \<open>x\<close> rounded to \<open>d\<close> decimal places: \<open>y\<close> has at most \<open>d\<close> decimal places and
  no such number is nearer to \<open>x\<close>, that is, \<open>y\<close> is within half a unit of the last
  place of \<open>x\<close>.
\<close>

definition rounded_to :: "nat \<Rightarrow> real \<Rightarrow> real \<Rightarrow> bool" where
  "rounded_to d x y \<longleftrightarrow>
     of_int \<lfloor>y * 10 ^ d\<rfloor> = y * 10 ^ d \<and> \<bar>y - x\<bar> * (2 * 10 ^ d) \<le> 1"

text \<open>The number of elements of a sequence strictly greater than an integer threshold.\<close>

definition spec_breaches :: "real list \<Rightarrow> int \<Rightarrow> int" where
  "spec_breaches L threshold = int (length (filter (\<lambda>x. x > of_int threshold) L))"

text \<open>The samples of a region, in the order of the data.\<close>

definition samples_of :: "sample list \<Rightarrow> string \<Rightarrow> sample list" where
  "samples_of items rg = filter (\<lambda>item. region item = rg) items"

text \<open>
  The statistics the specification gives for a region: the zero-filled entry when the
  store has no bucket for it, and otherwise the two means, the percentile and the
  count over the bucket, the real-valued ones rounded.
\<close>

definition spec_stats :: "store \<Rightarrow> int \<Rightarrow> string \<Rightarrow> region_stats" where
  "spec_stats d threshold rg =
     (case map_of d rg of
        None \<Rightarrow> zero_stats
      | Some b \<Rightarrow>
          \<lparr>avg_latency = py_round (spec_mean (latencies b)) 2,
           p95_latency = py_round (spec_p95 (latencies b)) 2,
           avg_uptime = py_round (spec_mean (uptimes b)) 4,
           breaches = spec_breaches (latencies b) threshold\<rparr>)"

text \<open>
  The thresholds that have a finite binary64 value: those below \<open>2 ^ 1024 - 2 ^ 970\<close> in
  magnitude (from there on the nearest binary64 would be \<open>2 ^ 1024\<close>).
\<close>

definition threshold_in_range :: "int \<Rightarrow> bool" where
  "threshold_in_range t \<longleftrightarrow> \<bar>t\<bar> < 2 ^ 1024 - 2 ^ 970"

text \<open>
  Every bucket of a store holds at least one sample, and its latencies are below
  \<open>2 ^ 53\<close> in magnitude, where the rounding of a threshold cannot move it across them.
\<close>

definition store_ok :: "store \<Rightarrow> bool" where
  "store_ok d \<longleftrightarrow>
     list_all (\<lambda>(k, b). latencies b \<noteq> [] \<and> uptimes b \<noteq> [] \<and>
                         list_all (\<lambda>x. \<bar>x\<bar> < 2 ^ 53) (latencies b)) d"

text \<open>The entry of a region in the response of a call; none when the call failed.\<close>

definition response_entry :: "store \<times> (error + results) \<Rightarrow> string \<Rightarrow> region_stats option" where
  "response_entry out rg = (case snd out of Inl e \<Rightarrow> None | Inr res \<Rightarrow> map_of res rg)"

section \<open>The store built at start-up\<close>

lemma getitem_present: "map_of d k = Some b \<Longrightarrow> defaultdict_getitem d k = (d, b)"
  by (simp add: defaultdict_getitem_def)

lemma getitem_missing:
  "map_of d k = None \<Longrightarrow>
     defaultdict_getitem d k = (d @ [(k, default_factory)], default_factory)"
  by (simp add: defaultdict_getitem_def)

lemma keys_map_entry: "map fst (AList.map_entry k f d) = map fst d"
  by (induction d) auto

lemma map_of_append_latency:
  "map_of (append_latency d k v) =
     (map_of d)(k \<mapsto> (case map_of d k of None \<Rightarrow> default_factory | Some b \<Rightarrow> b)
                       \<lparr>latencies := latencies (case map_of d k of None \<Rightarrow> default_factory | Some b \<Rightarrow> b) @ [v]\<rparr>)"
  by (cases "map_of d k")
     (auto simp: append_latency_def defaultdict_getitem_def map_of_map_entry map_add_def fun_eq_iff
           split: option.splits)

lemma map_of_append_uptime:
  "map_of (append_uptime d k v) =
     (map_of d)(k \<mapsto> (case map_of d k of None \<Rightarrow> default_factory | Some b \<Rightarrow> b)
                       \<lparr>uptimes := uptimes (case map_of d k of None \<Rightarrow> default_factory | Some b \<Rightarrow> b) @ [v]\<rparr>)"
  by (cases "map_of d k")
     (auto simp: append_uptime_def defaultdict_getitem_def map_of_map_entry map_add_def fun_eq_iff
           split: option.splits)

lemma keys_append_latency:
  "map fst (append_latency d k v) = (if dict_contains d k then map fst d else map fst d @ [k])"
  by (auto simp: append_latency_def defaultdict_getitem_def dict_contains_def keys_map_entry
           split: option.splits)

lemma keys_append_uptime:
  "map fst (append_uptime d k v) = (if dict_contains d k then map fst d else map fst d @ [k])"
  by (auto simp: append_uptime_def defaultdict_getitem_def dict_contains_def keys_map_entry
           split: option.splits)

lemma build_store_snoc: "build_store (items @ [x]) = process_item (build_store items) x"
  by (simp add: build_store_def)

lemma map_of_build_store:
  "map_of (build_store items) rg =
     (if samples_of items rg = [] then None
      else Some \<lparr>latencies = map latency_ms (samples_of items rg),
                 uptimes = map uptime_pct (samples_of items rg)\<rparr>)"
proof (induction items arbitrary: rg rule: rev_induct)
  case Nil
  show ?case by (simp add: build_store_def samples_of_def)
next
  case (snoc x items)
  show ?case
    by (simp add: build_store_snoc process_item_def Let_def map_of_append_latency
          map_of_append_uptime snoc.IH samples_of_def default_factory_def)
qed

lemma dict_contains_build_store:
  "dict_contains (build_store items) rg \<longleftrightarrow> samples_of items rg \<noteq> []"
  by (simp add: dict_contains_def map_of_build_store)

lemma distinct_build_store: "distinct (map fst (build_store items))"
proof (induction items rule: rev_induct)
  case Nil
  show ?case by (simp add: build_store_def)
next
  case (snoc x items)
  have "dict_contains (append_latency (build_store items) (region x) (latency_ms x)) (region x)"
    by (simp add: dict_contains_def map_of_append_latency)
  then show ?case using snoc
    by (auto simp: build_store_snoc process_item_def Let_def keys_append_latency keys_append_uptime
       dict_contains_def map_of_eq_None_iff)
qed

lemma process_item_Nil:
  "process_item [] item =
     [(region item, \<lparr>latencies = [latency_ms item], uptimes = [uptime_pct item]\<rparr>)]"
  by (simp add: process_item_def append_latency_def append_uptime_def defaultdict_getitem_def
        default_factory_def)

lemma process_item_Cons:
  "process_item ((k, b) # d) item =
     (if region item = k
      then (k, b\<lparr>latencies := latencies b @ [latency_ms item],
                 uptimes := uptimes b @ [uptime_pct item]\<rparr>) # d
      else (k, b) # process_item d item)"
  by (auto simp: process_item_def append_latency_def append_uptime_def defaultdict_getitem_def
        Let_def AList.map_of_map_entry split: option.splits)

lemma PROCESSED_DATA_eq:
  "PROCESSED_DATA =
    [(''apac'',
      \<lparr>latencies = [103.67, 206.81, 150.4, 139.44, 159.57, 231.17, 155.99, 177.31, 236.58, 152.06, 143.73, 100.63],
       uptimes = [99.269, 98.88, 97.798, 97.891, 97.519, 97.365, 97.822, 97.575, 97.27, 98.879, 98.738, 98.563]\<rparr>),
     (''emea'',
      \<lparr>latencies = [186.77, 223.88, 225.29, 126.49, 183.37, 169.76, 135.66, 125.56, 219.31, 132, 122.16, 107.86],
       uptimes = [97.498, 99.071, 98.303, 97.432, 99.029, 98.48, 97.909, 97.164, 97.868, 99.2, 98.539, 98.703]\<rparr>),
     (''amer'',
      \<lparr>latencies = [162.82, 171.9, 154.74, 130.84, 222.48, 123.92, 183.61, 157.98, 212.52, 215.67, 141.13, 134.05],
       uptimes = [98.083, 97.271, 98.954, 98.581, 98.746, 99.387, 99.035, 99.103, 98.047, 99.02, 99.242, 98.826]\<rparr>)]"
  by (simp add: PROCESSED_DATA_def build_store_def TELEMETRY_DATA_def process_item_Nil process_item_Cons)

section \<open>The numeric functions\<close>

lemma np_mean_spec: "xs \<noteq> [] \<Longrightarrow> np_mean xs = Inr (spec_mean xs)"
  by (simp add: np_mean_def spec_mean_def)

lemma lerp_eq: "lerp a b t = a + (b - a) * t"
  by (simp add: lerp_def Let_def algebra_simps)

lemma np_percentile_spec:
  assumes "xs \<noteq> []"
  shows "np_percentile xs 95 = Inr (spec_p95 xs)"
proof -
  define n where "n = length xs"
  define v :: real where "v = (of_nat n - 1) * (95 / 100)"
  define r :: real where "r = 0.95 * (of_nat n - 1)"
  define arr where "arr = sort xs"
  have np: "np_percentile xs 95 =
      Inr (lerp (arr ! (if of_nat n - 1 \<le> v then n - 1 else nat \<lfloor>v\<rfloor>))
                (arr ! (if of_nat n - 1 \<le> v then n - 1 else nat \<lfloor>v\<rfloor> + 1))
                (v - of_int \<lfloor>v\<rfloor>))"
    unfolding np_percentile_def Let_def v_def n_def arr_def using assms by simp
  have sp: "spec_p95 xs = arr ! nat \<lfloor>r\<rfloor> + (r - of_int \<lfloor>r\<rfloor>) * (arr ! nat \<lceil>r\<rceil> - arr ! nat \<lfloor>r\<rfloor>)"
    unfolding spec_p95_def Let_def r_def n_def arr_def by simp
  have rv: "r = v" by (simp add: r_def v_def)
  have n1: "1 \<le> n" using assms by (cases xs) (simp_all add: n_def)
  have v0: "0 \<le> v" using n1 by (simp add: v_def)
  have fl0: "0 \<le> \<lfloor>v\<rfloor>" using v0 by simp
  show ?thesis
  proof (cases "n = 1")
    case True
    then have "v = 0" by (simp add: v_def)
    then show ?thesis
      using True by (simp add: np sp rv lerp_eq)
  next
    case False
    then have "2 \<le> n" using n1 by simp
    then have lt: "\<not> of_nat n - 1 \<le> v" by (simp add: v_def)
    show ?thesis
    proof (cases "of_int \<lfloor>v\<rfloor> = v")
      case True
      then have "\<lceil>v\<rceil> = \<lfloor>v\<rfloor>" by (metis ceiling_of_int)
      moreover have "v - of_int \<lfloor>v\<rfloor> = 0" using True by linarith
      ultimately show ?thesis
        using lt by (simp add: np sp rv lerp_eq)
    next
      case False
      then have "\<lceil>v\<rceil> = \<lfloor>v\<rfloor> + 1"
        by (metis ceiling_altdef)
      moreover have "nat (\<lfloor>v\<rfloor> + 1) = nat \<lfloor>v\<rfloor> + 1" using fl0 by linarith
      ultimately show ?thesis
        using lt by (simp add: np sp rv lerp_eq algebra_simps)
    qed
  qed
qed

lemma round_half_even_near: "\<bar>of_int (round_half_even y) - y\<bar> \<le> 1 / 2"
proof -
  define f where "f = \<lfloor>y\<rfloor>"
  define d where "d = y - of_int f"
  have d: "0 \<le> d" "d < 1" unfolding d_def f_def by linarith+
  have y: "y = of_int f + d" by (simp add: d_def)
  have rhe: "round_half_even y =
      (if d < 1 / 2 then f else if 1 / 2 < d then f + 1 else if even f then f else f + 1)"
    by (simp add: round_half_even_def Let_def f_def d_def)
  have "\<bar>of_int (if d < 1 / 2 then f else if 1 / 2 < d then f + 1
                     else if even f then f else f + 1) - (of_int f + d)\<bar> \<le> 1 / 2"
    using d by (auto simp: abs_if)
  then have "\<bar>of_int (round_half_even y) - (of_int f + d)\<bar> \<le> 1 / 2"
    by (simp only: rhe)
  then show ?thesis by (simp only: y [symmetric])
qed

lemma py_round_rounded_to: "rounded_to d x (py_round x d)"
proof -
  have "\<bar>py_round x d - x\<bar> * (2 * 10 ^ d) =
        2 * \<bar>of_int (round_half_even (x * 10 ^ d)) - x * 10 ^ d\<bar>"
  proof -
    have "py_round x d - x = (of_int (round_half_even (x * 10 ^ d)) - x * 10 ^ d) / 10 ^ d"
      by (simp add: py_round_def field_simps)
    then show ?thesis by (simp add: abs_divide)
  qed
  also have "\<dots> \<le> 1" using round_half_even_near [of "x * 10 ^ d"] by simp
  finally show ?thesis by (simp add: rounded_to_def py_round_def)
qed

section \<open>The conversion of the threshold\<close>

lemma round_half_even_cases:
  "round_half_even y = \<lfloor>y\<rfloor> \<or> round_half_even y = \<lfloor>y\<rfloor> + 1"
  by (simp add: round_half_even_def Let_def)

lemma round_half_even_ge: "of_int N \<le> y \<Longrightarrow> N \<le> round_half_even y"
proof -
  assume "of_int N \<le> y"
  then have "N \<le> \<lfloor>y\<rfloor>" by (simp add: le_floor_iff)
  then show ?thesis using round_half_even_cases [of y] by auto
qed

lemma round_half_even_le: "y \<le> of_int N \<Longrightarrow> round_half_even y \<le> N"
proof -
  assume le: "y \<le> of_int N"
  show ?thesis
  proof (cases "y = of_int \<lfloor>y\<rfloor>")
    case True
    then have "round_half_even y = \<lfloor>y\<rfloor>" by (simp add: round_half_even_def Let_def)
    moreover have "\<lfloor>y\<rfloor> \<le> N" using le by (simp add: floor_le_iff)
    ultimately show ?thesis by simp
  next
    case False
    then have "of_int \<lfloor>y\<rfloor> < y" by linarith
    then have "of_int \<lfloor>y\<rfloor> < (of_int N :: real)" using le by linarith
    then have "\<lfloor>y\<rfloor> < N" by simp
    then show ?thesis using round_half_even_cases [of y] by auto
  qed
qed

lemma round_half_even_below_half:
  assumes "y < of_int N - 1 / 2"
  shows "round_half_even y \<le> N - 1"
proof -
  have fl: "of_int \<lfloor>y\<rfloor> \<le> y" "y < of_int \<lfloor>y\<rfloor> + 1" by linarith+
  have "\<lfloor>y\<rfloor> \<le> N - 1"
  proof -
    have "of_int \<lfloor>y\<rfloor> < (of_int N :: real)" using fl assms by linarith
    then show ?thesis by simp
  qed
  show ?thesis
  proof (cases "\<lfloor>y\<rfloor> = N - 1")
    case True
    then have "y - of_int \<lfloor>y\<rfloor> < 1 / 2" using assms by simp
    then have "round_half_even y = \<lfloor>y\<rfloor>" by (simp add: round_half_even_def Let_def)
    then show ?thesis using True by simp
  next
    case False
    then have "\<lfloor>y\<rfloor> + 1 \<le> N - 1" using \<open>\<lfloor>y\<rfloor> \<le> N - 1\<close> by simp
    then show ?thesis using round_half_even_cases [of y] by auto
  qed
qed

lemma round_half_even_above_half:
  assumes "of_int N - 1 / 2 \<le> y" and "even N"
  shows "N \<le> round_half_even y"
proof -
  have fl: "of_int \<lfloor>y\<rfloor> \<le> y" "y < of_int \<lfloor>y\<rfloor> + 1" by linarith+
  have ge: "N - 1 \<le> \<lfloor>y\<rfloor>"
  proof -
    have "of_int (N - 1) \<le> y" using assms(1) by simp
    then show ?thesis by (simp only: le_floor_iff)
  qed
  show ?thesis
  proof (cases "\<lfloor>y\<rfloor> = N - 1")
    case True
    then have odd: "odd \<lfloor>y\<rfloor>" using assms(2) by simp
    have "1 / 2 \<le> y - of_int \<lfloor>y\<rfloor>" using assms(1) True by simp
    then have "round_half_even y = \<lfloor>y\<rfloor> + 1"
      using odd by (auto simp: round_half_even_def Let_def)
    then show ?thesis using True by simp
  next
    case False
    then have "N \<le> \<lfloor>y\<rfloor>" using ge by simp
    then show ?thesis using round_half_even_cases [of y] by auto
  qed
qed

lemma binary64_of_int_small:
  "\<bar>i\<bar> < 2 ^ 53 \<Longrightarrow> binary64_of_int i = Inr (of_int i)"
  by (simp add: binary64_of_int_def)

text \<open>The pieces of the conversion of a large integer.\<close>

lemma binary64_of_int_large:
  assumes "\<not> \<bar>i\<bar> < 2 ^ 53"
  shows "binary64_of_int i =
    (if 2 ^ 1024 \<le> round_half_even (of_int \<bar>i\<bar> / 2 ^ nat (bitlen \<bar>i\<bar> - 53)) * 2 ^ nat (bitlen \<bar>i\<bar> - 53)
     then Inl OverflowError
     else Inr (of_int (sgn i * round_half_even (of_int \<bar>i\<bar> / 2 ^ nat (bitlen \<bar>i\<bar> - 53))
                        * 2 ^ nat (bitlen \<bar>i\<bar> - 53))))"
  using assms unfolding binary64_of_int_def Let_def by (simp only: if_False)

lemma large_exponent:
  fixes a :: int
  assumes "2 ^ 53 \<le> a"
  defines "e \<equiv> nat (bitlen a - 53)"
  shows "2 ^ (e + 52) \<le> a" and "a < 2 ^ (e + 53)" and "1 \<le> e"
proof -
  have pos: "0 < a" using assms(1) by (smt (verit) zero_less_power)
  from bitlen_bounds [OF pos]
  have lo: "2 ^ nat (bitlen a - 1) \<le> a" and hi: "a < 2 ^ nat (bitlen a)" by simp_all
  have "(2::int) ^ 53 < 2 ^ nat (bitlen a)" using assms(1) hi by linarith
  then have "53 < nat (bitlen a)" by (simp only: power_strict_increasing_iff [of 2] one_less_numeral_iff semiring_norm)
  then have bl: "54 \<le> bitlen a" by linarith
  then have 1: "nat (bitlen a - 1) = e + 52" and 2: "nat (bitlen a) = e + 53"
    by (simp_all add: e_def)
  show "2 ^ (e + 52) \<le> a" using lo by (simp only: 1)
  show "a < 2 ^ (e + 53)" using hi by (simp only: 2)
  show "1 \<le> e" using bl by (simp add: e_def)
qed

lemma large_mantissa:
  fixes a :: int
  assumes "2 ^ 53 \<le> a"
  defines "e \<equiv> nat (bitlen a - 53)"
  defines "m \<equiv> round_half_even (of_int a / 2 ^ e)"
  shows "2 ^ 52 \<le> m" and "m \<le> 2 ^ 53"
proof -
  have b: "2 ^ (e + 52) \<le> a" "a < 2 ^ (e + 53)"
    using large_exponent [OF assms(1)] by (simp_all add: e_def)
  have "(of_int (2 ^ 52) :: real) \<le> of_int a / 2 ^ e"
  proof -
    have "(2::real) ^ (e + 52) \<le> of_int a"
      using b(1) by (metis of_int_le_iff of_int_numeral of_int_power)
    then show ?thesis by (simp add: le_divide_eq power_add mult.commute)
  qed
  then show "2 ^ 52 \<le> m" unfolding m_def by (rule round_half_even_ge)
  have "of_int a / 2 ^ e \<le> (of_int (2 ^ 53) :: real)"
  proof -
    have "of_int a < (2::real) ^ (e + 53)"
      using b(2) by (metis of_int_less_iff of_int_numeral of_int_power)
    then show ?thesis by (simp add: divide_le_eq power_add mult.commute)
  qed
  then show "m \<le> 2 ^ 53" unfolding m_def by (rule round_half_even_le)
qed

lemma binary64_of_int_magnitude:
  assumes "\<not> \<bar>i\<bar> < 2 ^ 53" and "binary64_of_int i = Inr v"
  shows "(0 < i \<longrightarrow> 2 ^ 53 \<le> v) \<and> (i < 0 \<longrightarrow> v \<le> - (2 ^ 53))"
proof -
  define a where "a = \<bar>i\<bar>"
  define e where "e = nat (bitlen a - 53)"
  define m where "m = round_half_even (of_int a / 2 ^ e)"
  have a: "2 ^ 53 \<le> a" using assms(1) by (simp add: a_def)
  have e1: "1 \<le> e" using large_exponent(3) [OF a] by (simp add: e_def)
  have m52: "2 ^ 52 \<le> m" using large_mantissa(1) [OF a] by (simp add: m_def e_def)
  have "(2::int) ^ 1 \<le> 2 ^ e" using e1 by (intro power_increasing) simp_all
  then have "(2::int) ^ 52 * 2 \<le> m * 2 ^ e"
    using m52 by (intro mult_mono) simp_all
  then have big: "(2::int) ^ 53 \<le> m * 2 ^ e" by simp
  have v: "v = of_int (sgn i * m * 2 ^ e)"
    using assms(2) unfolding binary64_of_int_large [OF assms(1)] m_def e_def a_def
    by (simp split: if_splits)
  have rbig: "(2::real) ^ 53 \<le> of_int (m * 2 ^ e)"
    using big by (metis of_int_le_iff of_int_numeral of_int_power)
  show ?thesis
  proof (intro conjI impI)
    assume "0 < i"
    then have "v = of_int (m * 2 ^ e)" using v by simp
    then show "2 ^ 53 \<le> v" using rbig by simp
  next
    assume "i < 0"
    then have "v = - of_int (m * 2 ^ e)" using v by simp
    then show "v \<le> - (2 ^ 53)" using rbig by simp
  qed
qed

lemma binary64_of_int_compare:
  assumes "binary64_of_int t = Inr v" and "\<bar>x\<bar> < 2 ^ 53"
  shows "v < x \<longleftrightarrow> of_int t < x"
proof (cases "\<bar>t\<bar> < 2 ^ 53")
  case True
  then show ?thesis using assms(1) by (simp add: binary64_of_int_small)
next
  case False
  note mag = binary64_of_int_magnitude [OF False assms(1)]
  have t: "2 ^ 53 \<le> t \<or> t \<le> - (2 ^ 53)" using False by linarith
  then show ?thesis
  proof
    assume p: "2 ^ 53 \<le> t"
    then have "0 < t" by (smt (verit) zero_less_power)
    then have "2 ^ 53 \<le> v" using mag by simp
    moreover have "(2::real) ^ 53 \<le> of_int t"
      using p by (metis of_int_le_iff of_int_numeral of_int_power)
    ultimately show ?thesis using assms(2) by linarith
  next
    assume n: "t \<le> - (2 ^ 53)"
    then have "t < 0" by (smt (verit) zero_less_power)
    then have "v \<le> - (2 ^ 53)" using mag by simp
    moreover have "of_int t \<le> - ((2::real) ^ 53)"
      using n by (metis of_int_le_iff of_int_minus of_int_numeral of_int_power)
    ultimately show ?thesis using assms(2) by linarith
  qed
qed

lemma binary64_of_int_in_range:
  assumes "threshold_in_range t"
  shows "\<exists>v. binary64_of_int t = Inr v"
proof (cases "\<bar>t\<bar> < 2 ^ 53")
  case True
  then show ?thesis by (simp add: binary64_of_int_small)
next
  case False
  define a where "a = \<bar>t\<bar>"
  define e where "e = nat (bitlen a - 53)"
  define m where "m = round_half_even (of_int a / 2 ^ e)"
  have a: "2 ^ 53 \<le> a" using False by (simp add: a_def)
  have lt: "a < 2 ^ 1024 - 2 ^ 970" using assms by (simp add: threshold_in_range_def a_def)
  have lo: "2 ^ (e + 52) \<le> a" using large_exponent(1) [OF a] by (simp add: e_def)
  have m53: "m \<le> 2 ^ 53" using large_mantissa(2) [OF a] by (simp add: m_def e_def)
  have m0: "0 \<le> m" using large_mantissa(1) [OF a] by (simp add: m_def e_def)
  have "(0::int) < 2 ^ 970" by simp
  then have "(2::int) ^ (e + 52) < 2 ^ 1024" using lo lt by linarith
  then have "e + 52 < 1024" by (simp only: power_strict_increasing_iff [of 2] one_less_numeral_iff semiring_norm)
  then have e971: "e \<le> 971" by simp
  have small: "m * 2 ^ e < 2 ^ 1024"
  proof (cases "e = 971")
    case True
    have "of_int a / 2 ^ 971 < (of_int (2 ^ 53) :: real) - 1 / 2"
    proof -
      have "of_int a < (2::real) ^ 1024 - 2 ^ 970"
      proof -
        have "of_int a < (of_int (2 ^ 1024 - 2 ^ 970) :: real)"
          using lt by (simp only: of_int_less_iff)
        then show ?thesis by simp
      qed
      then have "of_int a / 2 ^ 971 < ((2::real) ^ 1024 - 2 ^ 970) / 2 ^ 971"
        by (simp add: divide_strict_right_mono)
      also have "((2::real) ^ 1024 - 2 ^ 970) / 2 ^ 971 = 2 ^ 53 - 1 / 2"
        by (simp add: diff_divide_distrib)
      finally show ?thesis by simp
    qed
    then have "m \<le> 2 ^ 53 - 1"
      unfolding m_def True by (rule round_half_even_below_half)
    then have "m * 2 ^ 971 \<le> (2 ^ 53 - 1) * 2 ^ 971" by (intro mult_right_mono) simp_all
    also have "\<dots> < (2::int) ^ 1024" by simp
    finally show ?thesis by (simp only: True)
  next
    case False
    then have "e \<le> 970" using e971 by simp
    then have "(2::int) ^ e \<le> 2 ^ 970" by (intro power_increasing) simp_all
    then have "m * 2 ^ e \<le> 2 ^ 53 * 2 ^ 970"
      using m53 m0 by (intro mult_mono) simp_all
    also have "\<dots> < (2::int) ^ 1024" by simp
    finally show ?thesis .
  qed
  have "\<not> 2 ^ 1024 \<le> m * 2 ^ e" using small by simp
  then show ?thesis
    unfolding binary64_of_int_large [OF False] m_def e_def a_def
    by (simp only: if_False) blast
qed

lemma binary64_of_int_overflow:
  assumes "\<not> threshold_in_range t"
  shows "binary64_of_int t = Inl OverflowError"
proof -
  define a where "a = \<bar>t\<bar>"
  define e where "e = nat (bitlen a - 53)"
  define m where "m = round_half_even (of_int a / 2 ^ e)"
  have ge: "2 ^ 1024 - 2 ^ 970 \<le> a" using assms by (simp add: threshold_in_range_def a_def)
  have a: "2 ^ 53 \<le> a" using ge by simp
  have big: "\<not> \<bar>t\<bar> < 2 ^ 53" using a by (simp add: a_def)
  have lo: "2 ^ (e + 52) \<le> a" and hi: "a < 2 ^ (e + 53)"
    using large_exponent(1,2) [OF a] by (simp_all add: e_def)
  have m52: "2 ^ 52 \<le> m" using large_mantissa(1) [OF a] by (simp add: m_def e_def)
  have "(2::int) ^ 1023 < 2 ^ (e + 53)" using ge hi by simp
  then have "1023 < e + 53" by (simp only: power_strict_increasing_iff [of 2] one_less_numeral_iff semiring_norm)
  then have e971: "971 \<le> e" by simp
  have over: "2 ^ 1024 \<le> m * 2 ^ e"
  proof (cases "e = 971")
    case True
    have "(of_int (2 ^ 53) :: real) - 1 / 2 \<le> of_int a / 2 ^ 971"
    proof -
      have "(2::real) ^ 1024 - 2 ^ 970 \<le> of_int a"
      proof -
        have "(of_int (2 ^ 1024 - 2 ^ 970) :: real) \<le> of_int a"
          using ge by (simp only: of_int_le_iff)
        then show ?thesis by simp
      qed
      then have "((2::real) ^ 1024 - 2 ^ 970) / 2 ^ 971 \<le> of_int a / 2 ^ 971"
        by (simp add: divide_right_mono)
      moreover have "((2::real) ^ 1024 - 2 ^ 970) / 2 ^ 971 = 2 ^ 53 - 1 / 2"
        by (simp add: diff_divide_distrib)
      ultimately show ?thesis by simp
    qed
    then have "2 ^ 53 \<le> m"
      unfolding m_def True by (rule round_half_even_above_half) simp
    then have "2 ^ 53 * 2 ^ 971 \<le> m * 2 ^ 971" by (intro mult_right_mono) simp_all
    then show ?thesis by (simp add: True)
  next
    case False
    then have "972 \<le> e" using e971 by simp
    then have "(2::int) ^ 972 \<le> 2 ^ e" by (intro power_increasing) simp_all
    then have "2 ^ 52 * 2 ^ 972 \<le> m * 2 ^ e"
      using m52 by (intro mult_mono) simp_all
    then show ?thesis by simp
  qed
  show ?thesis
    unfolding binary64_of_int_large [OF big]
    using over unfolding m_def e_def a_def
    by (simp only: if_True)
qed

lemma count_breaches_overflow:
  "\<not> threshold_in_range t \<Longrightarrow> count_breaches xs t = Inl OverflowError"
  by (simp add: count_breaches_def binary64_of_int_overflow)

lemma count_breaches_in_range:
  assumes "threshold_in_range t" and "list_all (\<lambda>x. \<bar>x\<bar> < 2 ^ 53) xs"
  shows "count_breaches xs t = Inr (spec_breaches xs t)"
proof -
  obtain v where v: "binary64_of_int t = Inr v"
    using binary64_of_int_in_range [OF assms(1)] by blast
  have "sum_list (map (\<lambda>x. if v < x then 1 else 0) xs) = spec_breaches xs t"
    using assms(2)
  proof (induction xs)
    case Nil
    show ?case by (simp add: spec_breaches_def)
  next
    case (Cons x xs)
    have "v < x \<longleftrightarrow> of_int t < x"
      using binary64_of_int_compare [OF v] Cons.prems by simp
    then show ?case using Cons by (simp add: spec_breaches_def)
  qed
  then show ?thesis by (simp add: count_breaches_def v)
qed

section \<open>The handler's loop\<close>

lemma analyze_loop_absent:
  "map_of d rg = None \<Longrightarrow>
     analyze_loop d t (rg # rest) res = analyze_loop d t rest (AList.update rg zero_stats res)"
  by (simp add: dict_contains_def)

lemma analyze_loop_present:
  "map_of d rg = Some b \<Longrightarrow>
     analyze_loop d t (rg # rest) res =
       (case np_mean (latencies b) of
          Inl e \<Rightarrow> (d, Inl e)
        | Inr avg_lat \<Rightarrow>
            (case np_percentile (latencies b) 95 of
               Inl e \<Rightarrow> (d, Inl e)
             | Inr p95 \<Rightarrow>
                 (case np_mean (uptimes b) of
                    Inl e \<Rightarrow> (d, Inl e)
                  | Inr avg_up \<Rightarrow>
                      (case count_breaches (latencies b) t of
                         Inl e \<Rightarrow> (d, Inl e)
                       | Inr n \<Rightarrow>
                           analyze_loop d t rest
                             (AList.update rg
                                \<lparr>avg_latency = py_round avg_lat 2,
                                 p95_latency = py_round p95 2,
                                 avg_uptime = py_round avg_up 4,
                                 breaches = n\<rparr>
                                res)))))"
  by (simp add: dict_contains_def getitem_present Let_def)

text \<open>Whatever the store and the outcome, the call leaves the store as it found it.\<close>

lemma analyze_loop_frame: "fst (analyze_loop d t rs res) = d"
proof (induction rs arbitrary: res)
  case Nil
  show ?case by simp
next
  case (Cons rg rest)
  show ?case
  proof (cases "map_of d rg")
    case None
    show ?thesis by (simp only: analyze_loop_absent [OF None] Cons.IH)
  next
    case (Some b)
    show ?thesis
      unfolding analyze_loop_present [OF Some]
      by (simp add: Cons.IH split: sum.splits)
  qed
qed

lemma analyze_latency_frame: "fst (analyze_latency d req) = d"
  unfolding analyze_latency_def by (rule analyze_loop_frame)

lemma map_of_foldl_update:
  "map_of (foldl (\<lambda>res rg. AList.update rg (f rg) res) res rs) k =
     (if k \<in> set rs then Some (f k) else map_of res k)"
  by (induction rs arbitrary: res) (auto simp: AList.update_conv')

lemma store_ok_lookup:
  "store_ok d \<Longrightarrow> map_of d k = Some b \<Longrightarrow>
     latencies b \<noteq> [] \<and> uptimes b \<noteq> [] \<and> list_all (\<lambda>x. \<bar>x\<bar> < 2 ^ 53) (latencies b)"
  by (auto simp: store_ok_def list_all_iff dest: map_of_SomeD)

text \<open>
  On a store whose buckets are not empty the loop can fail in one way only: some
  requested region has a bucket and the threshold has no binary64 value. Otherwise it
  writes, region by region, the statistics of the specification.
\<close>

lemma analyze_loop_spec:
  assumes "store_ok d"
  shows "analyze_loop d t rs res =
           (d, if \<not> threshold_in_range t \<and> list_ex (dict_contains d) rs
               then Inl OverflowError
               else Inr (foldl (\<lambda>res rg. AList.update rg (spec_stats d t rg) res) res rs))"
proof (induction rs arbitrary: res)
  case Nil
  show ?case by simp
next
  case (Cons rg rest)
  show ?case
  proof (cases "map_of d rg")
    case None
    then show ?thesis
      by (simp only: analyze_loop_absent Cons.IH) (simp add: spec_stats_def dict_contains_def)
  next
    case (Some b)
    have ne: "latencies b \<noteq> []" "uptimes b \<noteq> []"
      and bd: "list_all (\<lambda>x. \<bar>x\<bar> < 2 ^ 53) (latencies b)"
      using store_ok_lookup [OF assms Some] by simp_all
    have c: "dict_contains d rg" using Some by (simp add: dict_contains_def)
    show ?thesis
    proof (cases "threshold_in_range t")
      case True
      show ?thesis
        unfolding analyze_loop_present [OF Some]
        by (simp add: np_mean_spec np_percentile_spec count_breaches_in_range [OF True bd] ne
              Cons.IH spec_stats_def Some True)
    next
      case False
      show ?thesis
        unfolding analyze_loop_present [OF Some]
        by (simp add: np_mean_spec np_percentile_spec count_breaches_overflow [OF False] ne
              False c)
    qed
  qed
qed

lemma analyze_latency_spec:
  assumes "store_ok d"
  shows "analyze_latency d req =
           (d, if \<not> threshold_in_range (threshold_ms req) \<and> list_ex (dict_contains d) (regions req)
               then Inl OverflowError
               else Inr (foldl (\<lambda>res rg. AList.update rg (spec_stats d (threshold_ms req) rg) res)
                           [] (regions req)))"
  unfolding analyze_latency_def by (rule analyze_loop_spec [OF assms])

section \<open>The store of the program\<close>

lemma store_ok_PROCESSED_DATA: "store_ok PROCESSED_DATA"
  by (simp add: PROCESSED_DATA_eq store_ok_def)

lemma keys_PROCESSED_DATA: "map fst PROCESSED_DATA = [''apac'', ''emea'', ''amer'']"
  by (simp add: PROCESSED_DATA_eq)

lemma nonempty_PROCESSED_DATA:
  "list_all (\<lambda>(k, b). latencies b \<noteq> [] \<and> uptimes b \<noteq> []) PROCESSED_DATA"
  by (simp add: PROCESSED_DATA_eq)

lemma lookup_apac:
  "map_of PROCESSED_DATA ''apac'' =
     Some \<lparr>latencies = [103.67, 206.81, 150.4, 139.44, 159.57, 231.17, 155.99, 177.31, 236.58, 152.06, 143.73, 100.63],
           uptimes = [99.269, 98.88, 97.798, 97.891, 97.519, 97.365, 97.822, 97.575, 97.27, 98.879, 98.738, 98.563]\<rparr>"
  by (simp add: PROCESSED_DATA_eq)

lemma apac_present: "dict_contains PROCESSED_DATA ''apac''"
  by (simp add: dict_contains_def lookup_apac)

lemma mars_absent: "\<not> dict_contains PROCESSED_DATA ''mars''"
  by (simp add: dict_contains_def PROCESSED_DATA_eq)

text \<open>When the call returns a response, and what the response holds.\<close>

lemma analyze_latency_returns:
  assumes "threshold_in_range (threshold_ms req) \<or>
           (\<forall>r \<in> set (regions req). \<not> dict_contains PROCESSED_DATA r)"
  shows "\<exists>res. analyze_latency PROCESSED_DATA req = (PROCESSED_DATA, Inr res)"
  using assms
  by (auto simp: analyze_latency_spec [OF store_ok_PROCESSED_DATA] list_ex_iff)

lemma analyze_latency_overflow:
  assumes "\<not> threshold_in_range (threshold_ms req)"
    and "rg \<in> set (regions req)" and "dict_contains PROCESSED_DATA rg"
  shows "analyze_latency PROCESSED_DATA req = (PROCESSED_DATA, Inl OverflowError)"
  using assms
  by (auto simp: analyze_latency_spec [OF store_ok_PROCESSED_DATA] list_ex_iff)

lemma analyze_latency_overflow_at:
  assumes "\<not> threshold_in_range t" and "rg \<in> set rs" and "dict_contains PROCESSED_DATA rg"
  shows "analyze_latency PROCESSED_DATA \<lparr>regions = rs, threshold_ms = t\<rparr>
           = (PROCESSED_DATA, Inl OverflowError)"
proof -
  have "\<not> threshold_in_range (threshold_ms \<lparr>regions = rs, threshold_ms = t\<rparr>)"
    using assms(1) by simp
  moreover have "rg \<in> set (regions \<lparr>regions = rs, threshold_ms = t\<rparr>)"
    using assms(2) by simp
  ultimately show ?thesis using assms(3) by (rule analyze_latency_overflow)
qed

lemma analyze_latency_entry:
  assumes "analyze_latency PROCESSED_DATA req = (d, Inr res)" and "rg \<in> set (regions req)"
  shows "map_of res rg = Some (spec_stats PROCESSED_DATA (threshold_ms req) rg)"
proof -
  have "res = foldl (\<lambda>res rg. AList.update rg (spec_stats PROCESSED_DATA (threshold_ms req) rg) res)
                [] (regions req)"
    using assms(1)
    by (simp add: analyze_latency_spec [OF store_ok_PROCESSED_DATA] split: if_splits)
  then show ?thesis using assms(2) by (simp add: map_of_foldl_update)
qed

lemma spec_breaches_antimono: "t1 \<le> t2 \<Longrightarrow> spec_breaches xs t2 \<le> spec_breaches xs t1"
proof (induction xs)
  case Nil
  show ?case by (simp add: spec_breaches_def)
next
  case (Cons x xs)
  have "of_int t2 < x \<Longrightarrow> of_int t1 < x"
    using Cons.prems by (meson le_less_trans of_int_le_iff)
  then show ?case using Cons by (auto simp: spec_breaches_def)
qed

text \<open>Thresholds used below.\<close>

lemma in_range_examples:
  "threshold_in_range 150" "threshold_in_range 100" "threshold_in_range 0"
  "threshold_in_range (- 5)"
  by (simp_all add: threshold_in_range_def)

lemma out_of_range_examples:
  "\<not> threshold_in_range (10 ^ 400)" "\<not> threshold_in_range (- (10 ^ 400))"
  "\<not> threshold_in_range (2 ^ 1024)"
  by (simp_all add: threshold_in_range_def)

text \<open>The numbers of the bucket \<open>apac\<close>, computed.\<close>

lemma sort_apac:
  "sort ([103.67, 206.81, 150.4, 139.44, 159.57, 231.17, 155.99, 177.31, 236.58, 152.06, 143.73, 100.63] :: real list) =
     [100.63, 103.67, 139.44, 143.73, 150.4, 152.06, 155.99, 159.57, 177.31, 206.81, 231.17, 236.58]"
  by simp

lemma spec_p95_apac:
  "spec_p95 [103.67, 206.81, 150.4, 139.44, 159.57, 231.17, 155.99, 177.31, 236.58, 152.06, 143.73, 100.63] = 233.6045"
  unfolding spec_p95_def Let_def sort_apac by simp

lemma breaches_apac_150:
  "spec_breaches [103.67, 206.81, 150.4, 139.44, 159.57, 231.17, 155.99, 177.31, 236.58, 152.06, 143.73, 100.63] 150 = 8"
  by (simp add: spec_breaches_def)

lemma spec_stats_apac_150:
  "avg_latency (spec_stats PROCESSED_DATA 150 ''apac'') = 163.11"
  "breaches (spec_stats PROCESSED_DATA 150 ''apac'') = 8"
  "rounded_to 2 (spec_mean [103.67, 206.81, 150.4, 139.44, 159.57, 231.17, 155.99, 177.31, 236.58, 152.06, 143.73, 100.63])
     (avg_latency (spec_stats PROCESSED_DATA 150 ''apac''))"
  unfolding spec_stats_def lookup_apac
  by (simp_all add: spec_mean_def py_round_def round_half_even_def Let_def spec_breaches_def
        rounded_to_def)

lemma analyze_apac_150:
  "\<exists>res. analyze_latency PROCESSED_DATA \<lparr>regions = [''apac''], threshold_ms = 150\<rparr> = (PROCESSED_DATA, Inr res) \<and>
     map_of res ''apac'' = Some (spec_stats PROCESSED_DATA 150 ''apac'')"
proof -
  obtain res where r: "analyze_latency PROCESSED_DATA \<lparr>regions = [''apac''], threshold_ms = 150\<rparr> = (PROCESSED_DATA, Inr res)"
    using analyze_latency_returns [of "\<lparr>regions = [''apac''], threshold_ms = 150\<rparr>"] in_range_examples(1) by auto
  from analyze_latency_entry [OF r, of "''apac''"]
  have "map_of res ''apac'' = Some (spec_stats PROCESSED_DATA 150 ''apac'')" by simp
  with r show ?thesis by blast
qed

text \<open>
  A tie. The mean of the uptimes of \<open>apac\<close> is \<open>98.13075\<close>, halfway between two numbers
  with four decimal places, and both are roundings of it in the sense of \<open>rounded_to\<close>.
  Exact arithmetic and \<open>py_round\<close> take the even one; binary64 arithmetic, whose mean is
  not exactly the tie, may take either.
\<close>

lemma uptime_mean_apac_tie:
  "spec_mean [99.269, 98.88, 97.798, 97.891, 97.519, 97.365, 97.822, 97.575, 97.27, 98.879, 98.738, 98.563] = 98.13075"
  "rounded_to 4 98.13075 98.1307"
  "rounded_to 4 98.13075 98.1308"
  by (simp_all add: spec_mean_def rounded_to_def)

section \<open>The claims\<close>

text \<open>
  Claim C1. For every region that has a bucket in the store, the \<open>p95_latency\<close> that
  \<open>analyze_latency\<close> returns for it is the 95th percentile of the bucket's latencies as
  the specification computes it (linear interpolation between the closest ranks of the
  sorted data, at \<open>r = 0.95 * (n - 1)\<close>), rounded to 2 decimal places: every response
  of a call that requests the region holds such an entry, whatever else is requested
  with it, and the call gives a response whenever the threshold has a binary64 value.
\<close>

theorem p95_latency_is_linear_interpolation:
  assumes "rg \<in> set (regions req)" and "map_of PROCESSED_DATA rg = Some b"
  shows "(threshold_in_range (threshold_ms req) \<longrightarrow>
            (\<exists>res. analyze_latency PROCESSED_DATA req = (PROCESSED_DATA, Inr res))) \<and>
         (\<forall>d res. analyze_latency PROCESSED_DATA req = (d, Inr res) \<longrightarrow>
            (\<exists>st. map_of res rg = Some st \<and>
                  rounded_to 2 (spec_p95 (latencies b)) (p95_latency st)))"
proof (intro conjI allI impI)
  assume "threshold_in_range (threshold_ms req)"
  then show "\<exists>res. analyze_latency PROCESSED_DATA req = (PROCESSED_DATA, Inr res)"
    by (simp add: analyze_latency_returns)
next
  fix d res
  assume "analyze_latency PROCESSED_DATA req = (d, Inr res)"
  from analyze_latency_entry [OF this assms(1)]
  show "\<exists>st. map_of res rg = Some st \<and> rounded_to 2 (spec_p95 (latencies b)) (p95_latency st)"
    by (simp add: spec_stats_def assms(2) py_round_rounded_to)
qed

theorem p95_latency_is_linear_interpolation_witness:
  "\<exists>res st. analyze_latency PROCESSED_DATA \<lparr>regions = [''apac''], threshold_ms = 150\<rparr> = (PROCESSED_DATA, Inr res) \<and>
     map_of res ''apac'' = Some st \<and>
     rounded_to 2 (spec_p95 [103.67, 206.81, 150.4, 139.44, 159.57, 231.17, 155.99, 177.31, 236.58, 152.06, 143.73, 100.63]) (p95_latency st) \<and>
     spec_p95 [103.67, 206.81, 150.4, 139.44, 159.57, 231.17, 155.99, 177.31, 236.58, 152.06, 143.73, 100.63] = 233.6045"
proof -
  have rq: "''apac'' \<in> set (regions \<lparr>regions = [''apac''], threshold_ms = 150\<rparr>)" by simp
  have tr: "threshold_in_range (threshold_ms \<lparr>regions = [''apac''], threshold_ms = 150\<rparr>)"
    using in_range_examples(1) by simp
  note inst = p95_latency_is_linear_interpolation [OF rq lookup_apac]
  from inst tr obtain res where
    r: "analyze_latency PROCESSED_DATA \<lparr>regions = [''apac''], threshold_ms = 150\<rparr> = (PROCESSED_DATA, Inr res)"
    by blast
  with inst obtain st where
    "map_of res ''apac'' = Some st"
    "rounded_to 2 (spec_p95 (latencies \<lparr>latencies = [103.67, 206.81, 150.4, 139.44, 159.57, 231.17, 155.99, 177.31, 236.58, 152.06, 143.73, 100.63], uptimes = [99.269, 98.88, 97.798, 97.891, 97.519, 97.365, 97.822, 97.575, 97.27, 98.879, 98.738, 98.563]\<rparr>)) (p95_latency st)"
    by blast
  then show ?thesis using r spec_p95_apac by (simp only: bucket.simps) blast
qed

text \<open>
  Claim C2. For every region that has a bucket in the store, the \<open>avg_latency\<close> returned
  is the arithmetic mean of the bucket's latencies rounded to 2 decimal places, and the
  \<open>avg_uptime\<close> returned is the arithmetic mean of its uptimes rounded to 4 decimal
  places: every response of a call that requests the region holds such an entry, and
  the call gives a response whenever the threshold has a binary64 value.
\<close>

theorem averages_are_rounded_means:
  assumes "rg \<in> set (regions req)" and "map_of PROCESSED_DATA rg = Some b"
  shows "(threshold_in_range (threshold_ms req) \<longrightarrow>
            (\<exists>res. analyze_latency PROCESSED_DATA req = (PROCESSED_DATA, Inr res))) \<and>
         (\<forall>d res. analyze_latency PROCESSED_DATA req = (d, Inr res) \<longrightarrow>
            (\<exists>st. map_of res rg = Some st \<and>
                  rounded_to 2 (spec_mean (latencies b)) (avg_latency st) \<and>
                  rounded_to 4 (spec_mean (uptimes b)) (avg_uptime st)))"
proof (intro conjI allI impI)
  assume "threshold_in_range (threshold_ms req)"
  then show "\<exists>res. analyze_latency PROCESSED_DATA req = (PROCESSED_DATA, Inr res)"
    by (simp add: analyze_latency_returns)
next
  fix d res
  assume "analyze_latency PROCESSED_DATA req = (d, Inr res)"
  from analyze_latency_entry [OF this assms(1)]
  show "\<exists>st. map_of res rg = Some st \<and>
          rounded_to 2 (spec_mean (latencies b)) (avg_latency st) \<and>
          rounded_to 4 (spec_mean (uptimes b)) (avg_uptime st)"
    by (simp add: spec_stats_def assms(2) py_round_rounded_to)
qed

theorem averages_are_rounded_means_witness:
  "\<exists>res st. analyze_latency PROCESSED_DATA \<lparr>regions = [''apac''], threshold_ms = 150\<rparr> = (PROCESSED_DATA, Inr res) \<and>
     map_of res ''apac'' = Some st \<and>
     rounded_to 2 (spec_mean [103.67, 206.81, 150.4, 139.44, 159.57, 231.17, 155.99, 177.31, 236.58, 152.06, 143.73, 100.63]) (avg_latency st) \<and>
     rounded_to 4 (spec_mean [99.269, 98.88, 97.798, 97.891, 97.519, 97.365, 97.822, 97.575, 97.27, 98.879, 98.738, 98.563]) (avg_uptime st)"
proof -
  have rq: "''apac'' \<in> set (regions \<lparr>regions = [''apac''], threshold_ms = 150\<rparr>)" by simp
  have tr: "threshold_in_range (threshold_ms \<lparr>regions = [''apac''], threshold_ms = 150\<rparr>)"
    using in_range_examples(1) by simp
  note inst = averages_are_rounded_means [OF rq lookup_apac]
  from inst tr obtain res where
    r: "analyze_latency PROCESSED_DATA \<lparr>regions = [''apac''], threshold_ms = 150\<rparr> = (PROCESSED_DATA, Inr res)"
    by blast
  with inst obtain st where
    "map_of res ''apac'' = Some st"
    "rounded_to 2 (spec_mean (latencies \<lparr>latencies = [103.67, 206.81, 150.4, 139.44, 159.57, 231.17, 155.99, 177.31, 236.58, 152.06, 143.73, 100.63], uptimes = [99.269, 98.88, 97.798, 97.891, 97.519, 97.365, 97.822, 97.575, 97.27, 98.879, 98.738, 98.563]\<rparr>)) (avg_latency st)"
    "rounded_to 4 (spec_mean (uptimes \<lparr>latencies = [103.67, 206.81, 150.4, 139.44, 159.57, 231.17, 155.99, 177.31, 236.58, 152.06, 143.73, 100.63], uptimes = [99.269, 98.88, 97.798, 97.891, 97.519, 97.365, 97.822, 97.575, 97.27, 98.879, 98.738, 98.563]\<rparr>)) (avg_uptime st)"
    by blast
  then show ?thesis using r by (simp only: bucket.simps) blast
qed

text \<open>
  Claim C3, as the specification states it, fails: with \<open>mars\<close>, which has no bucket,
  requested together with \<open>apac\<close>, which has one, and the threshold \<open>10 ^ 400\<close>, the call
  ends with \<^verbatim>\<open>OverflowError\<close> on the conversion of the threshold and gives no entry for
  \<open>mars\<close>.
\<close>

theorem unknown_region_with_huge_threshold_fails:
  "\<not> dict_contains PROCESSED_DATA ''mars'' \<and>
   analyze_latency PROCESSED_DATA \<lparr>regions = [''mars'', ''apac''], threshold_ms = 10 ^ 400\<rparr>
     = (PROCESSED_DATA, Inl OverflowError) \<and>
   response_entry
     (analyze_latency PROCESSED_DATA \<lparr>regions = [''mars'', ''apac''], threshold_ms = 10 ^ 400\<rparr>)
     ''mars'' = None"
proof -
  have "analyze_latency PROCESSED_DATA \<lparr>regions = [''mars'', ''apac''], threshold_ms = 10 ^ 400\<rparr>
     = (PROCESSED_DATA, Inl OverflowError)"
    by (rule analyze_latency_overflow_at [OF out_of_range_examples(1) _ apac_present]) simp
  then show ?thesis by (simp add: response_entry_def mars_absent)
qed

text \<open>
  Claim C3, amended. For every requested region that has no bucket in the store, the
  call raises no error whenever the threshold has a binary64 value (its magnitude is
  below \<open>2 ^ 1024 - 2 ^ 970\<close>) or no requested region has a bucket, and every response
  maps the region to the zero-filled entry.
\<close>

theorem unknown_region_zero_filled:
  assumes "rg \<in> set (regions req)" and "\<not> dict_contains PROCESSED_DATA rg"
  shows "(threshold_in_range (threshold_ms req) \<or>
          (\<forall>r \<in> set (regions req). \<not> dict_contains PROCESSED_DATA r) \<longrightarrow>
            (\<exists>res. analyze_latency PROCESSED_DATA req = (PROCESSED_DATA, Inr res))) \<and>
         (\<forall>d res. analyze_latency PROCESSED_DATA req = (d, Inr res) \<longrightarrow>
            map_of res rg =
              Some \<lparr>avg_latency = 0, p95_latency = 0, avg_uptime = 0, breaches = 0\<rparr>)"
proof (intro conjI allI impI)
  assume "threshold_in_range (threshold_ms req) \<or>
          (\<forall>r \<in> set (regions req). \<not> dict_contains PROCESSED_DATA r)"
  then show "\<exists>res. analyze_latency PROCESSED_DATA req = (PROCESSED_DATA, Inr res)"
    by (rule analyze_latency_returns)
next
  fix d res
  assume "analyze_latency PROCESSED_DATA req = (d, Inr res)"
  from analyze_latency_entry [OF this assms(1)]
  show "map_of res rg = Some \<lparr>avg_latency = 0, p95_latency = 0, avg_uptime = 0, breaches = 0\<rparr>"
    using assms(2) by (simp add: spec_stats_def dict_contains_def zero_stats_def)
qed

theorem unknown_region_zero_filled_witness:
  "\<exists>res. analyze_latency PROCESSED_DATA \<lparr>regions = [''apac'', ''mars''], threshold_ms = 100\<rparr>
            = (PROCESSED_DATA, Inr res) \<and>
     map_of res ''mars'' =
       Some \<lparr>avg_latency = 0, p95_latency = 0, avg_uptime = 0, breaches = 0\<rparr>"
proof -
  have rq: "''mars'' \<in> set (regions \<lparr>regions = [''apac'', ''mars''], threshold_ms = 100\<rparr>)"
    by simp
  have tr: "threshold_in_range (threshold_ms \<lparr>regions = [''apac'', ''mars''], threshold_ms = 100\<rparr>)"
    using in_range_examples(2) by simp
  note inst = unknown_region_zero_filled [OF rq mars_absent]
  from inst tr obtain res where
    r: "analyze_latency PROCESSED_DATA \<lparr>regions = [''apac'', ''mars''], threshold_ms = 100\<rparr>
          = (PROCESSED_DATA, Inr res)"
    by blast
  with inst show ?thesis by blast
qed

text \<open>
  Claim C4, as the specification states it, fails: for \<open>apac\<close> and the threshold
  \<open>2 ^ 1024\<close>, an integer, the call ends with \<^verbatim>\<open>OverflowError\<close> and returns no count.
\<close>

theorem breaches_with_huge_threshold_fails:
  "analyze_latency PROCESSED_DATA \<lparr>regions = [''apac''], threshold_ms = 2 ^ 1024\<rparr>
     = (PROCESSED_DATA, Inl OverflowError) \<and>
   response_entry
     (analyze_latency PROCESSED_DATA \<lparr>regions = [''apac''], threshold_ms = 2 ^ 1024\<rparr>)
     ''apac'' = None"
proof -
  have "analyze_latency PROCESSED_DATA \<lparr>regions = [''apac''], threshold_ms = 2 ^ 1024\<rparr>
     = (PROCESSED_DATA, Inl OverflowError)"
    by (rule analyze_latency_overflow_at [OF out_of_range_examples(3) _ apac_present]) simp
  then show ?thesis by (simp add: response_entry_def)
qed

text \<open>
  Claim C4, amended. For every region that has a bucket in the store and every integer
  threshold that has a binary64 value (its magnitude is below \<open>2 ^ 1024 - 2 ^ 970\<close>;
  zero and the negative ones are among them), the call raises no error; an integer
  threshold of larger magnitude ends it with \<^verbatim>\<open>OverflowError\<close>; and in every response the
  \<open>breaches\<close> of the region is the number of latencies of its bucket strictly greater
  than the threshold, the integer itself.
\<close>

theorem breaches_counts_latencies_above_threshold:
  assumes "rg \<in> set (regions req)" and "map_of PROCESSED_DATA rg = Some b"
  shows "(threshold_in_range (threshold_ms req) \<longrightarrow>
            (\<exists>res. analyze_latency PROCESSED_DATA req = (PROCESSED_DATA, Inr res))) \<and>
         (\<not> threshold_in_range (threshold_ms req) \<longrightarrow>
            analyze_latency PROCESSED_DATA req = (PROCESSED_DATA, Inl OverflowError)) \<and>
         (\<forall>d res. analyze_latency PROCESSED_DATA req = (d, Inr res) \<longrightarrow>
            (\<exists>st. map_of res rg = Some st \<and>
                  breaches st =
                    int (length (filter (\<lambda>x. x > of_int (threshold_ms req)) (latencies b)))))"
proof (intro conjI allI impI)
  assume "threshold_in_range (threshold_ms req)"
  then show "\<exists>res. analyze_latency PROCESSED_DATA req = (PROCESSED_DATA, Inr res)"
    by (simp add: analyze_latency_returns)
next
  assume "\<not> threshold_in_range (threshold_ms req)"
  then show "analyze_latency PROCESSED_DATA req = (PROCESSED_DATA, Inl OverflowError)"
    using analyze_latency_overflow [of req rg] assms
    by (simp add: dict_contains_def)
next
  fix d res
  assume "analyze_latency PROCESSED_DATA req = (d, Inr res)"
  from analyze_latency_entry [OF this assms(1)]
  show "\<exists>st. map_of res rg = Some st \<and>
          breaches st = int (length (filter (\<lambda>x. x > of_int (threshold_ms req)) (latencies b)))"
    by (simp add: spec_stats_def assms(2) spec_breaches_def)
qed

theorem breaches_counts_latencies_above_threshold_witness:
  "\<exists>res st. analyze_latency PROCESSED_DATA \<lparr>regions = [''apac''], threshold_ms = - 5\<rparr>
               = (PROCESSED_DATA, Inr res) \<and>
     map_of res ''apac'' = Some st \<and> breaches st = 12"
proof -
  have rq: "''apac'' \<in> set (regions \<lparr>regions = [''apac''], threshold_ms = - 5\<rparr>)" by simp
  have tr: "threshold_in_range (threshold_ms \<lparr>regions = [''apac''], threshold_ms = - 5\<rparr>)"
    using in_range_examples(4) by simp
  note inst = breaches_counts_latencies_above_threshold [OF rq lookup_apac]
  from inst tr obtain res where
    r: "analyze_latency PROCESSED_DATA \<lparr>regions = [''apac''], threshold_ms = - 5\<rparr>
          = (PROCESSED_DATA, Inr res)"
    by blast
  with inst obtain st where st: "map_of res ''apac'' = Some st"
    "breaches st = int (length (filter (\<lambda>x. x > of_int (threshold_ms \<lparr>regions = [''apac''], threshold_ms = - 5\<rparr>))
       (latencies \<lparr>latencies = [103.67, 206.81, 150.4, 139.44, 159.57, 231.17, 155.99, 177.31, 236.58, 152.06, 143.73, 100.63], uptimes = [99.269, 98.88, 97.798, 97.891, 97.519, 97.365, 97.822, 97.575, 97.27, 98.879, 98.738, 98.563]\<rparr>)))"
    by blast
  from st(2) have "breaches st = 12" by simp
  with r st(1) show ?thesis by blast
qed

text \<open>
  Claim C5, as the specification states it, fails: for \<open>apac\<close> and the thresholds
  \<open>- (10 ^ 400) \<le> 0\<close>, the call at the lower threshold ends with \<^verbatim>\<open>OverflowError\<close>, so
  there is no count at it to compare the count at the higher one, 12, with.
\<close>

theorem breaches_at_huge_negative_threshold_fails:
  "(- (10 ^ 400) :: int) \<le> 0 \<and>
   analyze_latency PROCESSED_DATA \<lparr>regions = [''apac''], threshold_ms = - (10 ^ 400)\<rparr>
     = (PROCESSED_DATA, Inl OverflowError) \<and>
   map_option breaches
     (response_entry (analyze_latency PROCESSED_DATA \<lparr>regions = [''apac''], threshold_ms = 0\<rparr>)
        ''apac'') = Some 12"
proof -
  have 1: "analyze_latency PROCESSED_DATA \<lparr>regions = [''apac''], threshold_ms = - (10 ^ 400)\<rparr>
     = (PROCESSED_DATA, Inl OverflowError)"
    by (rule analyze_latency_overflow_at [OF out_of_range_examples(2) _ apac_present]) simp
  obtain res where r: "analyze_latency PROCESSED_DATA \<lparr>regions = [''apac''], threshold_ms = 0\<rparr>
      = (PROCESSED_DATA, Inr res)"
    using analyze_latency_returns [of "\<lparr>regions = [''apac''], threshold_ms = 0\<rparr>"]
      in_range_examples(3) by auto
  from analyze_latency_entry [OF r, of "''apac''"]
  have "map_of res ''apac'' = Some (spec_stats PROCESSED_DATA 0 ''apac'')" by simp
  moreover have "breaches (spec_stats PROCESSED_DATA 0 ''apac'') = 12"
    unfolding spec_stats_def lookup_apac by (simp add: spec_breaches_def)
  ultimately have 2: "map_option breaches
     (response_entry (analyze_latency PROCESSED_DATA \<lparr>regions = [''apac''], threshold_ms = 0\<rparr>)
        ''apac'') = Some 12"
    by (simp add: r response_entry_def)
  have "(- (10 ^ 400) :: int) \<le> 0" by simp
  with 1 2 show ?thesis by blast
qed

text \<open>
  Claim C5, amended. For a fixed requested region and thresholds \<open>t1 \<le> t2\<close>, whenever
  the calls at both thresholds give a response, as they do when both thresholds have a
  binary64 value (magnitudes below \<open>2 ^ 1024 - 2 ^ 970\<close>), the \<open>breaches\<close> at \<open>t2\<close> is at
  most the \<open>breaches\<close> at \<open>t1\<close>. The region may have a bucket or not.
\<close>

theorem breaches_antimono_in_threshold:
  assumes "t1 \<le> t2" and "rg \<in> set rs"
  shows "(threshold_in_range t1 \<and> threshold_in_range t2 \<longrightarrow>
            (\<exists>res1 res2.
               analyze_latency PROCESSED_DATA \<lparr>regions = rs, threshold_ms = t1\<rparr>
                 = (PROCESSED_DATA, Inr res1) \<and>
               analyze_latency PROCESSED_DATA \<lparr>regions = rs, threshold_ms = t2\<rparr>
                 = (PROCESSED_DATA, Inr res2))) \<and>
         (\<forall>d1 d2 res1 res2.
            analyze_latency PROCESSED_DATA \<lparr>regions = rs, threshold_ms = t1\<rparr> = (d1, Inr res1) \<and>
            analyze_latency PROCESSED_DATA \<lparr>regions = rs, threshold_ms = t2\<rparr> = (d2, Inr res2) \<longrightarrow>
            (\<exists>st1 st2. map_of res1 rg = Some st1 \<and> map_of res2 rg = Some st2 \<and>
                       breaches st2 \<le> breaches st1))"
proof (intro conjI allI impI)
  assume "threshold_in_range t1 \<and> threshold_in_range t2"
  then show "\<exists>res1 res2.
      analyze_latency PROCESSED_DATA \<lparr>regions = rs, threshold_ms = t1\<rparr> = (PROCESSED_DATA, Inr res1) \<and>
      analyze_latency PROCESSED_DATA \<lparr>regions = rs, threshold_ms = t2\<rparr> = (PROCESSED_DATA, Inr res2)"
    using analyze_latency_returns [of "\<lparr>regions = rs, threshold_ms = t1\<rparr>"]
          analyze_latency_returns [of "\<lparr>regions = rs, threshold_ms = t2\<rparr>"]
    by auto
next
  fix d1 d2 res1 res2
  assume a: "analyze_latency PROCESSED_DATA \<lparr>regions = rs, threshold_ms = t1\<rparr> = (d1, Inr res1) \<and>
             analyze_latency PROCESSED_DATA \<lparr>regions = rs, threshold_ms = t2\<rparr> = (d2, Inr res2)"
  have 1: "map_of res1 rg = Some (spec_stats PROCESSED_DATA t1 rg)"
    using analyze_latency_entry [of "\<lparr>regions = rs, threshold_ms = t1\<rparr>" d1 res1 rg] a assms(2)
    by simp
  have 2: "map_of res2 rg = Some (spec_stats PROCESSED_DATA t2 rg)"
    using analyze_latency_entry [of "\<lparr>regions = rs, threshold_ms = t2\<rparr>" d2 res2 rg] a assms(2)
    by simp
  have "breaches (spec_stats PROCESSED_DATA t2 rg) \<le> breaches (spec_stats PROCESSED_DATA t1 rg)"
    by (simp add: spec_stats_def zero_stats_def spec_breaches_antimono [OF assms(1)]
          split: option.splits)
  with 1 2 show "\<exists>st1 st2. map_of res1 rg = Some st1 \<and> map_of res2 rg = Some st2 \<and>
                       breaches st2 \<le> breaches st1"
    by blast
qed

theorem breaches_antimono_in_threshold_witness:
  "\<exists>res1 res2 st1 st2.
     analyze_latency PROCESSED_DATA \<lparr>regions = [''apac''], threshold_ms = 100\<rparr>
       = (PROCESSED_DATA, Inr res1) \<and>
     analyze_latency PROCESSED_DATA \<lparr>regions = [''apac''], threshold_ms = 150\<rparr>
       = (PROCESSED_DATA, Inr res2) \<and>
     map_of res1 ''apac'' = Some st1 \<and> map_of res2 ''apac'' = Some st2 \<and>
     breaches st2 \<le> breaches st1"
proof -
  have le: "(100::int) \<le> 150" by simp
  have rq: "''apac'' \<in> set [''apac'']" by simp
  note inst = breaches_antimono_in_threshold [OF le rq]
  from inst in_range_examples(1,2) obtain res1 res2 where
    r: "analyze_latency PROCESSED_DATA \<lparr>regions = [''apac''], threshold_ms = 100\<rparr>
          = (PROCESSED_DATA, Inr res1)"
       "analyze_latency PROCESSED_DATA \<lparr>regions = [''apac''], threshold_ms = 150\<rparr>
          = (PROCESSED_DATA, Inr res2)"
    by blast
  with inst show ?thesis by blast
qed

text \<open>
  Claim C6. With an empty list of regions the call raises no error and returns the empty
  mapping, for every threshold (and every store).
\<close>

theorem empty_regions_empty_mapping:
  "analyze_latency d \<lparr>regions = [], threshold_ms = t\<rparr> = (d, Inr [])"
  by (simp add: analyze_latency_def)

text \<open>
  Claim C7. Two calls with the same arguments, one after the other, have the same
  outcome: the second call, made on the store the first one leaves behind, gives what
  the first gave (the same response, or the same error) and leaves the same store.
\<close>

theorem analyze_latency_twice:
  "analyze_latency (fst (analyze_latency PROCESSED_DATA req)) req =
     analyze_latency PROCESSED_DATA req"
  by (simp only: analyze_latency_frame)

text \<open>
  Claim C8, as the specification states it, fails: for \<open>apac\<close> and the threshold 150 the
  call returns the average latency \<open>163.11\<close>, which is more than one millisecond away
  from the \<open>161.78\<close> of the specification.
\<close>

theorem apac_avg_latency_is_not_161_78:
  "map_option avg_latency
     (response_entry (analyze_latency PROCESSED_DATA \<lparr>regions = [''apac''], threshold_ms = 150\<rparr>) ''apac'')
     = Some 163.11 \<and>
   1 < \<bar>163.11 - 161.78 :: real\<bar>"
proof -
  obtain res where
    "analyze_latency PROCESSED_DATA \<lparr>regions = [''apac''], threshold_ms = 150\<rparr> = (PROCESSED_DATA, Inr res)"
    "map_of res ''apac'' = Some (spec_stats PROCESSED_DATA 150 ''apac'')"
    using analyze_apac_150 by blast
  then have "map_option avg_latency
     (response_entry (analyze_latency PROCESSED_DATA \<lparr>regions = [''apac''], threshold_ms = 150\<rparr>) ''apac'')
     = Some (avg_latency (spec_stats PROCESSED_DATA 150 ''apac''))"
    by (simp add: response_entry_def)
  moreover have "1 < \<bar>163.11 - 161.78 :: real\<bar>" by simp
  ultimately show ?thesis by (simp only: spec_stats_apac_150(1) simp_thms)
qed

text \<open>
  Claim C8, amended. For \<open>apac\<close>, with the twelve latencies of the data, and the
  threshold 150, the call returns the average latency \<open>163.11\<close>, which is the mean of
  the twelve values rounded to 2 decimal places, and \<open>breaches = 8\<close>, which is the
  number of the twelve values strictly greater than 150 (\<open>150.4\<close> is one of them).
\<close>

theorem apac_avg_latency_and_breaches:
  "\<exists>res st. analyze_latency PROCESSED_DATA \<lparr>regions = [''apac''], threshold_ms = 150\<rparr> = (PROCESSED_DATA, Inr res) \<and>
      map_of res ''apac'' = Some st \<and>
      avg_latency st = 163.11 \<and>
      rounded_to 2 (spec_mean [103.67, 206.81, 150.4, 139.44, 159.57, 231.17, 155.99, 177.31, 236.58, 152.06, 143.73, 100.63]) (avg_latency st) \<and>
      breaches st = 8 \<and>
      spec_breaches [103.67, 206.81, 150.4, 139.44, 159.57, 231.17, 155.99, 177.31, 236.58, 152.06, 143.73, 100.63] 150 = 8"
  using analyze_apac_150 spec_stats_apac_150 breaches_apac_150 by blast

text \<open>
  Claim C9. In the store built at start-up the keys are distinct, so a region has one
  bucket; the bucket of a region holds the latencies and the uptimes of exactly the
  samples whose region string is equal to it, in the order of the data, and a string
  that is the region of no sample has no bucket; in every bucket the two sequences
  have the same length; and the buckets together hold as many latencies as the data has
  samples.
\<close>

theorem dataset_store_groups_by_region:
  "distinct (map fst PROCESSED_DATA) \<and>
   (\<forall>rg. map_of PROCESSED_DATA rg =
      (if samples_of TELEMETRY_DATA rg = [] then None
       else Some \<lparr>latencies = map latency_ms (samples_of TELEMETRY_DATA rg),
                  uptimes = map uptime_pct (samples_of TELEMETRY_DATA rg)\<rparr>)) \<and>
   (\<forall>rg b. map_of PROCESSED_DATA rg = Some b \<longrightarrow> length (latencies b) = length (uptimes b)) \<and>
   sum_list (map (\<lambda>(rg, b). length (latencies b)) PROCESSED_DATA) = length TELEMETRY_DATA"
proof -
  have "distinct (map fst PROCESSED_DATA)"
    unfolding PROCESSED_DATA_def by (rule distinct_build_store)
  moreover have m: "\<forall>rg. map_of PROCESSED_DATA rg =
      (if samples_of TELEMETRY_DATA rg = [] then None
       else Some \<lparr>latencies = map latency_ms (samples_of TELEMETRY_DATA rg),
                  uptimes = map uptime_pct (samples_of TELEMETRY_DATA rg)\<rparr>)"
    unfolding PROCESSED_DATA_def by (simp add: map_of_build_store)
  moreover have "\<forall>rg b. map_of PROCESSED_DATA rg = Some b \<longrightarrow>
      length (latencies b) = length (uptimes b)"
    by (auto simp: m split: if_splits)
  moreover have "sum_list (map (\<lambda>(rg, b). length (latencies b)) PROCESSED_DATA) =
      length TELEMETRY_DATA"
    by (simp add: PROCESSED_DATA_eq TELEMETRY_DATA_def)
  ultimately show ?thesis by blast
qed

theorem dataset_store_groups_by_region_witness:
  "map_of PROCESSED_DATA ''apac'' =
     Some \<lparr>latencies = [103.67, 206.81, 150.4, 139.44, 159.57, 231.17, 155.99, 177.31, 236.58, 152.06, 143.73, 100.63],
           uptimes = [99.269, 98.88, 97.798, 97.891, 97.519, 97.365, 97.822, 97.575, 97.27, 98.879, 98.738, 98.563]\<rparr> \<and>
   length (map latency_ms (samples_of TELEMETRY_DATA ''apac'')) =
     length (map uptime_pct (samples_of TELEMETRY_DATA ''apac'')) \<and>
   map_of PROCESSED_DATA ''APAC'' = None"
proof -
  have s: "samples_of TELEMETRY_DATA ''apac'' \<noteq> []" "samples_of TELEMETRY_DATA ''APAC'' = []"
    by (simp_all add: samples_of_def TELEMETRY_DATA_def)
  have v: "map latency_ms (samples_of TELEMETRY_DATA ''apac'') =
      [103.67, 206.81, 150.4, 139.44, 159.57, 231.17, 155.99, 177.31, 236.58, 152.06, 143.73, 100.63]"
    "map uptime_pct (samples_of TELEMETRY_DATA ''apac'') =
      [99.269, 98.88, 97.798, 97.891, 97.519, 97.365, 97.822, 97.575, 97.27, 98.879, 98.738, 98.563]"
    by (simp_all add: samples_of_def TELEMETRY_DATA_def)
  from dataset_store_groups_by_region
  have m: "\<And>rg. map_of PROCESSED_DATA rg =
      (if samples_of TELEMETRY_DATA rg = [] then None
       else Some \<lparr>latencies = map latency_ms (samples_of TELEMETRY_DATA rg),
                  uptimes = map uptime_pct (samples_of TELEMETRY_DATA rg)\<rparr>)"
    and l: "\<And>rg b. map_of PROCESSED_DATA rg = Some b \<Longrightarrow> length (latencies b) = length (uptimes b)"
    by blast+
  have a: "map_of PROCESSED_DATA ''apac'' =
     Some \<lparr>latencies = map latency_ms (samples_of TELEMETRY_DATA ''apac''),
           uptimes = map uptime_pct (samples_of TELEMETRY_DATA ''apac'')\<rparr>"
    using m [of "''apac''"] s by simp
  from l [OF a] have "length (map latency_ms (samples_of TELEMETRY_DATA ''apac'')) =
     length (map uptime_pct (samples_of TELEMETRY_DATA ''apac''))" by simp
  moreover have "map_of PROCESSED_DATA ''APAC'' = None" using m [of "''APAC''"] s by simp
  ultimately show ?thesis using a v by simp
qed

text \<open>
  Claim C10. Every call leaves the store as it found it, whether it gives a response or
  ends with an error: the keys of the store are \<open>apac\<close>, \<open>emea\<close> and \<open>amer\<close> before and
  after, and no bucket is empty. This is so although an indexed access at a key the
  store does not have would append an empty bucket: the handler tests membership first
  and indexes only keys that are there.
\<close>

theorem analyze_latency_leaves_store_unchanged:
  "fst (analyze_latency PROCESSED_DATA req) = PROCESSED_DATA \<and>
   map fst (fst (analyze_latency PROCESSED_DATA req)) = [''apac'', ''emea'', ''amer''] \<and>
   list_all (\<lambda>(k, b). latencies b \<noteq> [] \<and> uptimes b \<noteq> [])
     (fst (analyze_latency PROCESSED_DATA req)) \<and>
   (\<forall>k. \<not> dict_contains PROCESSED_DATA k \<longrightarrow>
        fst (defaultdict_getitem PROCESSED_DATA k) = PROCESSED_DATA @ [(k, default_factory)])"
proof -
  have "\<forall>k. \<not> dict_contains PROCESSED_DATA k \<longrightarrow>
      fst (defaultdict_getitem PROCESSED_DATA k) = PROCESSED_DATA @ [(k, default_factory)]"
    by (simp add: dict_contains_def getitem_missing)
  then show ?thesis
    using keys_PROCESSED_DATA nonempty_PROCESSED_DATA
    by (simp only: analyze_latency_frame simp_thms)
qed

theorem analyze_latency_leaves_store_unchanged_witness:
  "fst (analyze_latency PROCESSED_DATA \<lparr>regions = [''mars'', ''apac''], threshold_ms = 10 ^ 400\<rparr>)
     = PROCESSED_DATA \<and>
   fst (defaultdict_getitem PROCESSED_DATA ''mars'') =
     PROCESSED_DATA @ [(''mars'', default_factory)]"
  using analyze_latency_leaves_store_unchanged
          [of "\<lparr>regions = [''mars'', ''apac''], threshold_ms = 10 ^ 400\<rparr>"]
        mars_absent
  by blast

end
